theory Spec2Isabelle
  imports Main "HOL-Library.Word"
begin

section \<open>Values shared by the whole program\<close>

text \<open>
  Go's \<^verbatim>\<open>uint64\<close> is a 64-bit word: \<open>+\<close> and \<open>-\<close> wrap around, \<open>div\<close> truncates
  and the comparisons are unsigned. Go's \<^verbatim>\<open>error\<close> values are the constructors of
  \<open>go_error\<close>; a \<^verbatim>\<open>panic\<close> is a value of its own, never an error that somebody
  receives.
\<close>

type_synonym u64 = "64 word"

datatype go_error =
    ErrNoParallelDownload
  | UrlParseError
  | RequestCreationError
  | TransportError
  | NumSyntaxError
  | NumRangeError
  | MediaTypeError
  | FileError
  | HeadCreationFailed go_error
  | HeadRequestFailed go_error

datatype panic = DivideByZero | PanicWith go_error

section \<open>The range partitioner: \<^verbatim>\<open>batchGenerator\<close>\<close>

text \<open>
  \<^verbatim>\<open>batchGenerator(contentLength, totalBatches)\<close> returns a closure over three
  variables: the two that never change (\<^verbatim>\<open>contentLength\<close>, \<^verbatim>\<open>batchSize\<close>) and the
  cursor \<^verbatim>\<open>start\<close>. The record holds the captured variables. The integer division
  panics when \<^verbatim>\<open>totalBatches\<close> is zero.
\<close>

record batch_state =
  contentLength :: u64
  batchSize :: u64
  start :: u64

definition batchGenerator :: "u64 \<Rightarrow> u64 \<Rightarrow> panic + batch_state" where
  "batchGenerator cl totalBatches =
     (if totalBatches = 0 then Inl DivideByZero
      else Inr \<lparr>contentLength = cl, batchSize = cl div totalBatches, start = 0\<rparr>)"

text \<open>
  One call of the closure. The mutex is held from the first statement to the return,
  so a call is one atomic step on the captured variables: the result and the new
  state. The statements are kept in the source's order: \<^verbatim>\<open>stop\<close> is computed from the
  old cursor, the cursor advances, \<^verbatim>\<open>stop\<close> is clamped, and the returned pair is read
  from the advanced cursor.
\<close>

definition generator :: "batch_state \<Rightarrow> (u64 \<times> u64) \<times> batch_state" where
  "generator g =
     (if contentLength g \<le> start g then ((0, 0), g)
      else
        let stop = start g + batchSize g;
            g' = g\<lparr>start := start g + batchSize g\<rparr>;
            stop' = (if contentLength g < stop then contentLength g else stop)
        in ((start g' - batchSize g', stop' - 1), g'))"

text \<open>
  The ranges the closure hands out before it first takes its exhausted branch
  (\<^verbatim>\<open>start >= contentLength\<close>). Calling may go on forever; then the value is \<open>None\<close>.
\<close>

partial_function (option) emitted :: "batch_state \<Rightarrow> (u64 \<times> u64) list option" where
  "emitted g =
     (if contentLength g \<le> start g then Some []
      else case generator g of
             (r, g') \<Rightarrow> Option.bind (emitted g') (\<lambda>rs. Some (r # rs)))"

declare emitted.simps [code]

text \<open>
  The dispatch loop of \<^verbatim>\<open>parallelDownload\<close>: it calls the closure, stops at the first
  pair that is \<open>(0, 0)\<close>, and otherwise spawns a fetch task with the index
  \<^verbatim>\<open>maxFiles\<close> and counts it. A task is recorded as (index, start, stop). The counter
  is a Go \<^verbatim>\<open>int\<close> that starts at 0 and grows by one for each task; it is a natural number
  here. A loop that never ends has the value \<open>None\<close>.
\<close>

type_synonym task = "nat \<times> u64 \<times> u64"

partial_function (option) dispatch ::
  "batch_state \<Rightarrow> nat \<Rightarrow> task list \<Rightarrow> (nat \<times> task list) option" where
  "dispatch g maxFiles spawned =
     (case generator g of
        ((startRange, stopRange), g') \<Rightarrow>
          if startRange = 0 \<and> stopRange = 0 then Some (maxFiles, spawned)
          else dispatch g' (maxFiles + 1) (spawned @ [(maxFiles, startRange, stopRange)]))"

declare dispatch.simps [code]

section \<open>Strings, decimal numbers and paths\<close>

text \<open>
  Go strings are byte sequences; a byte is a \<open>char\<close>. \<^verbatim>\<open>fmt.Sprintf\<close> with \<^verbatim>\<open>%d\<close> prints
  a non-negative integer in decimal, most significant digit first.
\<close>

type_synonym bytes = string

function itoa :: "nat \<Rightarrow> string" where
  "itoa n =
     (if n < 10 then [''0123456789'' ! n]
      else itoa (n div 10) @ [''0123456789'' ! (n mod 10)])"
  by pat_completeness auto
termination
  by (relation "measure id") auto

declare itoa.simps [simp del]

text \<open>The chunk file of index \<open>i\<close>: \<^verbatim>\<open>fmt.Sprintf("%s.%d", fileName, i)\<close>.\<close>

definition chunk_name :: "string \<Rightarrow> nat \<Rightarrow> string" where
  "chunk_name fileName i = fileName @ ''.'' @ itoa i"

text \<open>The request header of a range: \<^verbatim>\<open>fmt.Sprintf("bytes=%d-%d", start, stop)\<close>.\<close>

definition range_header :: "u64 \<Rightarrow> u64 \<Rightarrow> string" where
  "range_header a b = ''bytes='' @ itoa (unat a) @ ''-'' @ itoa (unat b)"

text \<open>
  \<^verbatim>\<open>path.Base\<close> of Go's standard library: the last element of a slash-separated path,
  trailing slashes removed first; \<open>.\<close> for the empty path and \<open>/\<close> for a path of
  slashes only.
\<close>

definition path_Base :: "string \<Rightarrow> string" where
  "path_Base p =
     (if p = [] then ''.''
      else
        let stripped = rev (dropWhile (\<lambda>c. c = CHR ''/'') (rev p));
            element = rev (takeWhile (\<lambda>c. c \<noteq> CHR ''/'') (rev stripped))
        in if element = [] then ''/'' else element)"

section \<open>Reading the response headers\<close>

text \<open>
  \<^verbatim>\<open>http.Header\<close> maps a canonical header name to the list of its values, and
  \<^verbatim>\<open>Get\<close> returns the first value, or the empty string when there is none.
\<close>

type_synonym header = "string \<rightharpoonup> string list"

definition header_Get :: "header \<Rightarrow> string \<Rightarrow> string" where
  "header_Get h key = (case h key of None \<Rightarrow> [] | Some [] \<Rightarrow> [] | Some (v # _) \<Rightarrow> v)"

definition contentLengthHeader :: string where
  "contentLengthHeader = ''Content-Length''"

definition contentDispositionHeader :: string where
  "contentDispositionHeader = ''Content-Disposition''"

text \<open>
  \<^verbatim>\<open>strconv.ParseUint(s, 10, 64)\<close>: the empty string and any byte that is not a
  decimal digit are a syntax error (in base 10 no sign, no underscore and no letter is
  accepted); a value that does not fit 64 bits is a range error, found by the cutoff
  test before the multiplication and by the wrap-around test after the addition. The
  value returned with an error is 0 or the maximum.
\<close>

definition is_digit :: "char \<Rightarrow> bool" where
  "is_digit c = (48 \<le> (of_char c :: nat) \<and> (of_char c :: nat) \<le> 57)"

definition digit_val :: "char \<Rightarrow> nat" where
  "digit_val c = (of_char c :: nat) - 48"

definition maxVal :: u64 where
  "maxVal = 18446744073709551615"

definition cutoff :: u64 where
  "cutoff = 18446744073709551615 div 10 + 1"

fun parse_digits :: "string \<Rightarrow> u64 \<Rightarrow> u64 \<times> go_error option" where
  "parse_digits [] n = (n, None)"
| "parse_digits (c # cs) n =
     (if \<not> is_digit c then (0, Some NumSyntaxError)
      else if cutoff \<le> n then (maxVal, Some NumRangeError)
      else
        let n10 = n * 10; n1 = n10 + of_nat (digit_val c)
        in if n1 < n10 \<or> maxVal < n1 then (maxVal, Some NumRangeError)
           else parse_digits cs n1)"

definition ParseUint :: "string \<Rightarrow> u64 \<times> go_error option" where
  "ParseUint s = (if s = [] then (0, Some NumSyntaxError) else parse_digits s 0)"

text \<open>
  \<^verbatim>\<open>mime.ParseMediaType\<close> of the standard library, as far as the program depends on
  it. Its first phase is modelled in full: the text before the first semicolon, in
  lower case and trimmed, must be a token, or a token, a slash and a token (the
  library's \<^verbatim>\<open>checkMediaTypeDisposition\<close>); otherwise it returns an error. The second
  phase, which reads the parameters after the media type, is the function
  \<open>mediaParams\<close>, a parameter of the model: it gets the text from the first
  semicolon on, and returns the parameter map or an error. Header values are read as
  ASCII: a byte above \<open>0x7f\<close> is no letter and no space, and never part of a token.
\<close>

definition isTSpecial :: "char \<Rightarrow> bool" where
  "isTSpecial c = (c \<in> set ''()<>@,;:/[]?='' \<or> c = CHR 0x22 \<or> c = CHR 0x5C)"

definition isTokenChar :: "char \<Rightarrow> bool" where
  "isTokenChar c =
     (0x20 < (of_char c :: nat) \<and> (of_char c :: nat) < 0x7f \<and> \<not> isTSpecial c)"

definition consumeToken :: "string \<Rightarrow> string \<times> string" where
  "consumeToken v = (takeWhile isTokenChar v, dropWhile isTokenChar v)"

definition checkMediaTypeDisposition :: "string \<Rightarrow> go_error option" where
  "checkMediaTypeDisposition s =
     (case consumeToken s of
        (typ, rest) \<Rightarrow>
          if typ = [] then Some MediaTypeError
          else if rest = [] then None
          else if hd rest \<noteq> CHR ''/'' then Some MediaTypeError
          else case consumeToken (tl rest) of
                 (subtype, rest') \<Rightarrow>
                   if subtype = [] then Some MediaTypeError
                   else if rest' \<noteq> [] then Some MediaTypeError
                   else None)"

definition ToLower :: "string \<Rightarrow> string" where
  "ToLower s =
     map (\<lambda>c. case map_of (zip ''ABCDEFGHIJKLMNOPQRSTUVWXYZ'' ''abcdefghijklmnopqrstuvwxyz'') c of
                 None \<Rightarrow> c | Some l \<Rightarrow> l) s"

definition isSpace :: "char \<Rightarrow> bool" where
  "isSpace c = (c = CHR '' '' \<or> (9 \<le> (of_char c :: nat) \<and> (of_char c :: nat) \<le> 13))"

definition TrimSpace :: "string \<Rightarrow> string" where
  "TrimSpace s = rev (dropWhile isSpace (rev (dropWhile isSpace s)))"

type_synonym media_params = "string \<rightharpoonup> string"

definition mime_ParseMediaType ::
  "(string \<Rightarrow> go_error + media_params) \<Rightarrow> string \<Rightarrow> go_error + media_params" where
  "mime_ParseMediaType mediaParams v =
     (let base = takeWhile (\<lambda>c. c \<noteq> CHR '';'') v;
          mediatype = TrimSpace (ToLower base)
      in case checkMediaTypeDisposition mediatype of
           Some err \<Rightarrow> Inl err
         | None \<Rightarrow> mediaParams (drop (length base) v))"

text \<open>
  \<^verbatim>\<open>extractDownloadDetailsFromHeaders\<close> returns its three named results. The short
  declaration at the call of \<^verbatim>\<open>mime.ParseMediaType\<close> stands in the function's own
  block, so it assigns the named result \<^verbatim>\<open>err\<close>, and the bare \<^verbatim>\<open>return\<close> after it
  returns that error. A parameter that the map does not hold reads as the empty string.
\<close>

definition extractDownloadDetailsFromHeaders ::
  "(string \<Rightarrow> go_error + media_params) \<Rightarrow> header \<Rightarrow> string \<times> u64 \<times> go_error option" where
  "extractDownloadDetailsFromHeaders mediaParams h =
     (case ParseUint (header_Get h contentLengthHeader) of
        (fileLength, Some err) \<Rightarrow> ([], fileLength, Some err)
      | (fileLength, None) \<Rightarrow>
          let contentDisposition = header_Get h contentDispositionHeader
          in if length contentDisposition = 0 then ([], fileLength, None)
             else case mime_ParseMediaType mediaParams contentDisposition of
                    Inl err \<Rightarrow> ([], fileLength, Some err)
                  | Inr params \<Rightarrow>
                      (case params ''filename'' of None \<Rightarrow> [] | Some f \<Rightarrow> f,
                       fileLength, None))"

text \<open>
  \<^verbatim>\<open>parseURLAndCaptureFilename\<close>: \<^verbatim>\<open>url.Parse\<close> is the standard library's; the model
  takes it as the function \<open>url_Parse\<close>, which returns an error or the parsed URL, of
  which only the field \<^verbatim>\<open>Path\<close> is read.
\<close>

record url =
  Path :: string

definition parseURLAndCaptureFilename ::
  "(string \<Rightarrow> go_error + url) \<Rightarrow> string \<Rightarrow> string \<times> go_error option" where
  "parseURLAndCaptureFilename url_Parse downloadURL =
     (case url_Parse downloadURL of
        Inl err \<Rightarrow> ([], Some err)
      | Inr u \<Rightarrow> (path_Base (Path u), None))"

section \<open>The outside world\<close>

text \<open>
  What the program does not decide itself is a field of \<open>world\<close>:
  \<^item> \<open>url_Parse\<close> and \<open>mediaParams\<close>: the standard library's URL parser and the
    parameter parser of \<^verbatim>\<open>mime.ParseMediaType\<close>;
  \<^item> \<open>NewRequest\<close>: the error of \<^verbatim>\<open>http.NewRequestWithContext\<close> for a method and a URL,
    if any; \<open>RoundTrip\<close>: the answer of \<^verbatim>\<open>http.DefaultTransport.RoundTrip\<close> to a
    request, an error or a response;
  \<^item> the faults of the file system, by path: \<open>create_fails\<close> (\<^verbatim>\<open>os.Create\<close>),
    \<open>copy_fails\<close> (\<^verbatim>\<open>io.Copy\<close> of a body into that file), \<open>open_fails\<close>
    (\<^verbatim>\<open>os.Open\<close>, \<^verbatim>\<open>os.OpenFile\<close>), \<open>append_fault\<close> (\<^verbatim>\<open>io.Copy\<close> of that chunk onto
    the base chunk stops after so many bytes), \<open>remove_fails\<close> (\<^verbatim>\<open>os.Remove\<close>) and
    \<open>rename_fails\<close> (\<^verbatim>\<open>os.Rename\<close>).
  The files themselves are a map from path to content, passed from call to call. A
  file that is not there cannot be opened or renamed. A fault is an operation that
  fails although the file is there: the source panics on some of these errors and
  discards the others (\<^verbatim>\<open>_ = os.Remove(...)\<close>), and the model does the same.
\<close>

type_synonym fs = "string \<rightharpoonup> bytes"

record http_request =
  Method :: string
  URL :: string
  RangeHeader :: "string option"

record http_response =
  StatusCode :: nat
  Header :: header
  Body :: bytes

record world =
  url_Parse :: "string \<Rightarrow> go_error + url"
  mediaParams :: "string \<Rightarrow> go_error + media_params"
  NewRequest :: "string \<Rightarrow> string \<Rightarrow> go_error option"
  RoundTrip :: "http_request \<Rightarrow> go_error + http_response"
  create_fails :: "string \<Rightarrow> bool"
  copy_fails :: "string \<Rightarrow> bool"
  open_fails :: "string \<Rightarrow> bool"
  append_fault :: "string \<Rightarrow> nat option"
  remove_fails :: "string \<Rightarrow> bool"
  rename_fails :: "string \<Rightarrow> string \<Rightarrow> bool"

definition os_Open :: "world \<Rightarrow> fs \<Rightarrow> string \<Rightarrow> bytes option" where
  "os_Open w fs name = (if open_fails w name then None else fs name)"

text \<open>
  \<^verbatim>\<open>io.Copy(targetFile, dataFile)\<close> in the merge loop: the target is open for appending.
  With a fault after \<open>k\<close> bytes only those are appended; the source discards the error.
\<close>

definition io_Copy_append :: "world \<Rightarrow> string \<Rightarrow> bytes \<Rightarrow> string \<Rightarrow> fs \<Rightarrow> fs" where
  "io_Copy_append w src d target fs =
     (case fs target of
        None \<Rightarrow> fs
      | Some t \<Rightarrow> fs(target \<mapsto> t @ (case append_fault w src of None \<Rightarrow> d | Some k \<Rightarrow> take k d)))"

definition os_Remove :: "world \<Rightarrow> string \<Rightarrow> fs \<Rightarrow> fs" where
  "os_Remove w name fs = (if remove_fails w name then fs else fs(name := None))"

definition os_Rename :: "world \<Rightarrow> string \<Rightarrow> string \<Rightarrow> fs \<Rightarrow> fs" where
  "os_Rename w old new fs =
     (if rename_fails w old new then fs
      else case fs old of None \<Rightarrow> fs | Some d \<Rightarrow> (fs(old := None))(new \<mapsto> d))"

section \<open>The progress writer\<close>

record progressWriter =
  maxBytes :: u64
  readBytes :: u64

text \<open>
  \<^verbatim>\<open>Write\<close> adds the length of the data to \<^verbatim>\<open>readBytes\<close>, prints the progress line and
  returns the length and no error. The printing changes no state of the program.
\<close>

definition Write :: "progressWriter \<Rightarrow> bytes \<Rightarrow> progressWriter \<times> nat \<times> go_error option" where
  "Write p d = (p\<lparr>readBytes := readBytes p + of_nat (length d)\<rparr>, length d, None)"

text \<open>
  The fetch tasks share one progress writer, and each call of \<^verbatim>\<open>Write\<close> runs in the
  task that copies. The statement \<^verbatim>\<open>p.readBytes += uint64(len(data))\<close> reads the field
  and then writes it; \<^verbatim>\<open>progressWriter\<close> has no mutex and \<^verbatim>\<open>Write\<close> takes no lock and
  uses no atomic operation (the closure of \<^verbatim>\<open>batchGenerator\<close> locks its mutex around its
  whole body), so between the read and the write of one call another task may run.
  A call in progress is a \<open>writer\<close>: where it stands, and the length of its data. A
  schedule is the list of the writers' indices in the order in which they take a step.
\<close>

datatype write_pc = BeforeLoad | BeforeStore u64 | Returned

type_synonym writer = "write_pc \<times> nat"

fun write_step :: "u64 \<times> writer list \<Rightarrow> nat \<Rightarrow> u64 \<times> writer list" where
  "write_step (counter, ws) i =
     (if i < length ws then
        (case ws ! i of
           (BeforeLoad, n) \<Rightarrow> (counter, ws[i := (BeforeStore counter, n)])
         | (BeforeStore v, n) \<Rightarrow> (v + of_nat n, ws[i := (Returned, n)])
         | (Returned, n) \<Rightarrow> (counter, ws))
      else (counter, ws))"

definition interleave :: "nat list \<Rightarrow> u64 \<times> writer list \<Rightarrow> u64 \<times> writer list" where
  "interleave schedule st = foldl write_step st schedule"

section \<open>Writing a body to a file, and one ranged fetch\<close>

text \<open>
  \<^verbatim>\<open>dataWriter\<close> creates (or truncates) the file and copies the body to the file and to
  the progress writer; it panics when the creation or the copy fails. The copy hands
  the body over in pieces; the counter ends at the same value as with one piece.
\<close>

definition dataWriter ::
  "world \<Rightarrow> string \<Rightarrow> bytes \<Rightarrow> progressWriter \<Rightarrow> fs \<Rightarrow> panic + fs \<times> progressWriter" where
  "dataWriter w fileName dataReader progress fs =
     (if create_fails w fileName then Inl (PanicWith FileError)
      else if copy_fails w fileName then Inl (PanicWith FileError)
      else Inr (fs(fileName \<mapsto> dataReader), fst (Write progress dataReader)))"

text \<open>
  \<^verbatim>\<open>downloadRangeBytes\<close> returns the error of the request's creation or of the round
  trip; after that it calls \<^verbatim>\<open>dataWriter\<close> and returns \<^verbatim>\<open>nil\<close>. It never reads the
  status code of the response.
\<close>

definition downloadRangeBytes ::
  "world \<Rightarrow> string \<Rightarrow> progressWriter \<Rightarrow> u64 \<Rightarrow> u64 \<Rightarrow> string \<Rightarrow> fs
     \<Rightarrow> panic + go_error option \<times> fs \<times> progressWriter" where
  "downloadRangeBytes w fileName progress a b downloadURL fs =
     (case NewRequest w ''GET'' downloadURL of
        Some err \<Rightarrow> Inr (Some err, fs, progress)
      | None \<Rightarrow>
          (case RoundTrip w \<lparr>Method = ''GET'', URL = downloadURL,
                             RangeHeader = Some (range_header a b)\<rparr> of
             Inl err \<Rightarrow> Inr (Some err, fs, progress)
           | Inr res \<Rightarrow>
               (case dataWriter w fileName (Body res) progress fs of
                  Inl p \<Rightarrow> Inl p
                | Inr (fs', progress') \<Rightarrow> Inr (None, fs', progress'))))"

text \<open>
  The body of the goroutine that \<^verbatim>\<open>parallelDownload\<close> starts for a range: it fetches
  the range into the chunk file of its index and panics on a returned error.
\<close>

definition fetch_task ::
  "world \<Rightarrow> string \<Rightarrow> string \<Rightarrow> task \<Rightarrow> fs \<times> progressWriter \<Rightarrow> panic + fs \<times> progressWriter" where
  "fetch_task w fileName downloadURL t st =
     (case t of
        (index, a, b) \<Rightarrow>
          (case downloadRangeBytes w (chunk_name fileName index) (snd st) a b downloadURL (fst st) of
             Inl p \<Rightarrow> Inl p
           | Inr (Some err, _) \<Rightarrow> Inl (PanicWith err)
           | Inr (None, st') \<Rightarrow> Inr st'))"

text \<open>
  The tasks run concurrently and the function waits for all of them. A panic in any
  task ends the process. Each task writes a file of its own name, so when no task
  panics the files are the same in whatever order the tasks run; the model runs them in
  the order of their indices.
\<close>

fun run_tasks ::
  "world \<Rightarrow> string \<Rightarrow> string \<Rightarrow> task list \<Rightarrow> fs \<times> progressWriter \<Rightarrow> panic + fs \<times> progressWriter" where
  "run_tasks w fileName downloadURL [] st = Inr st"
| "run_tasks w fileName downloadURL (t # ts) st =
     (case fetch_task w fileName downloadURL t st of
        Inl p \<Rightarrow> Inl p
      | Inr st' \<Rightarrow> run_tasks w fileName downloadURL ts st')"

section \<open>Reassembly\<close>

text \<open>
  The end of \<^verbatim>\<open>parallelDownload\<close>: the chunk of index 0 is opened for appending (a
  panic when that fails), the loop runs \<open>i\<close> from 1 below \<^verbatim>\<open>maxFiles\<close>, opens the chunk
  (a panic when that fails), appends it, and removes it; at the end the base chunk is
  renamed. The errors of the append, the removal and the renaming are discarded.
  The base chunk stays open during the loop, and no turn of the loop removes or renames
  it (the index is at least 1), so appending to the open file and appending to the
  file of that name are the same.
\<close>

function merge_chunks :: "world \<Rightarrow> string \<Rightarrow> string \<Rightarrow> nat \<Rightarrow> nat \<Rightarrow> fs \<Rightarrow> panic + fs" where
  "merge_chunks w fileName finalFileName i maxFiles fs =
     (if i < maxFiles then
        let currentFileName = chunk_name fileName i
        in case os_Open w fs currentFileName of
             None \<Rightarrow> Inl (PanicWith FileError)
           | Some d \<Rightarrow>
               merge_chunks w fileName finalFileName (i + 1) maxFiles
                 (os_Remove w currentFileName
                    (io_Copy_append w currentFileName d finalFileName fs))
      else Inr fs)"
  by pat_completeness auto
termination
  by (relation "measure (\<lambda>(w, fileName, finalFileName, i, maxFiles, fs). maxFiles - i)") auto

declare merge_chunks.simps [simp del]

definition reassemble :: "world \<Rightarrow> string \<Rightarrow> nat \<Rightarrow> fs \<Rightarrow> panic + fs" where
  "reassemble w fileName maxFiles fs =
     (let finalFileName = fileName @ ''.0''
      in case os_Open w fs finalFileName of
           None \<Rightarrow> Inl (PanicWith FileError)
         | Some _ \<Rightarrow>
             (case merge_chunks w fileName finalFileName 1 maxFiles fs of
                Inl p \<Rightarrow> Inl p
              | Inr fs' \<Rightarrow> Inr (os_Rename w finalFileName fileName fs')))"

section \<open>The two downloads\<close>

definition getHeaders :: "world \<Rightarrow> string \<Rightarrow> go_error + header" where
  "getHeaders w downloadURL =
     (case NewRequest w ''HEAD'' downloadURL of
        Some err \<Rightarrow> Inl (HeadCreationFailed err)
      | None \<Rightarrow>
          (case RoundTrip w \<lparr>Method = ''HEAD'', URL = downloadURL, RangeHeader = None\<rparr> of
             Inl err \<Rightarrow> Inl (HeadRequestFailed err)
           | Inr res \<Rightarrow> Inr (Header res)))"

text \<open>
  \<^verbatim>\<open>parallelDownload\<close> returns a file name and an error (\<open>None\<close> for \<^verbatim>\<open>nil\<close>), panics,
  or never returns: the outer \<open>option\<close> is \<open>None\<close> when the dispatch loop never ends.
  The result carries the files as the call leaves them.
\<close>

definition parallelDownload ::
  "world \<Rightarrow> string \<Rightarrow> u64 \<Rightarrow> fs \<Rightarrow> (panic + (string \<times> go_error option) \<times> fs) option" where
  "parallelDownload w downloadURL parallelRequests fs =
     (case parseURLAndCaptureFilename (url_Parse w) downloadURL of
        (_, Some err) \<Rightarrow> Some (Inr (([], Some err), fs))
      | (fallbackFileName, None) \<Rightarrow>
     (case getHeaders w downloadURL of
        Inl err \<Rightarrow> Some (Inr (([], Some err), fs))
      | Inr headers \<Rightarrow>
     if ''bytes'' \<noteq> header_Get headers ''Accept-Ranges''
     then Some (Inr (([], Some ErrNoParallelDownload), fs))
     else
     (case extractDownloadDetailsFromHeaders (mediaParams w) headers of
        (_, _, Some err) \<Rightarrow> Some (Inr (([], Some err), fs))
      | (fileName0, contentLength0, None) \<Rightarrow>
     let fileName = (if fileName0 = [] then fallbackFileName else fileName0);
         progress = \<lparr>maxBytes = contentLength0, readBytes = 0\<rparr>
     in
     (case batchGenerator contentLength0 parallelRequests of
        Inl p \<Rightarrow> Some (Inl p)
      | Inr g \<Rightarrow>
     (case dispatch g 0 [] of
        None \<Rightarrow> None
      | Some (maxFiles, spawned) \<Rightarrow>
     (case run_tasks w fileName downloadURL spawned (fs, progress) of
        Inl p \<Rightarrow> Some (Inl p)
      | Inr (fs', _) \<Rightarrow>
     (case reassemble w fileName maxFiles fs' of
        Inl p \<Rightarrow> Some (Inl p)
      | Inr fs'' \<Rightarrow> Some (Inr ((fileName, None), fs'')))))))))"

definition serialDownload ::
  "world \<Rightarrow> string \<Rightarrow> fs \<Rightarrow> panic + (string \<times> go_error option) \<times> fs" where
  "serialDownload w downloadURL fs =
     (case parseURLAndCaptureFilename (url_Parse w) downloadURL of
        (_, Some err) \<Rightarrow> Inr (([], Some err), fs)
      | (fallbackFileName0, None) \<Rightarrow>
     let fallbackFileName = (if fallbackFileName0 = [] then ''index.html'' else fallbackFileName0)
     in
     (case NewRequest w ''GET'' downloadURL of
        Some err \<Rightarrow> Inr (([], Some err), fs)
      | None \<Rightarrow>
     (case RoundTrip w \<lparr>Method = ''GET'', URL = downloadURL, RangeHeader = None\<rparr> of
        Inl err \<Rightarrow> Inr (([], Some err), fs)
      | Inr res \<Rightarrow>
     (case extractDownloadDetailsFromHeaders (mediaParams w) (Header res) of
        (_, _, Some err) \<Rightarrow> Inr (([], Some err), fs)
      | (fileName0, contentLength0, None) \<Rightarrow>
     let fileName = (if fileName0 = [] then fallbackFileName else fileName0);
         progress = \<lparr>maxBytes = contentLength0, readBytes = 0\<rparr>
     in
     (case dataWriter w fileName (Body res) progress fs of
        Inl p \<Rightarrow> Inl p
      | Inr (fs', _) \<Rightarrow> Inr ((fileName, None), fs'))))))"

section \<open>Notions used to state the properties\<close>

text \<open>
  The ranges of a fresh generator: \<open>None\<close> when \<^verbatim>\<open>batchGenerator\<close> panics or the
  generator never reaches its exhausted branch.
\<close>

definition ranges_of :: "u64 \<Rightarrow> u64 \<Rightarrow> (u64 \<times> u64) list option" where
  "ranges_of cl totalBatches =
     (case batchGenerator cl totalBatches of Inl _ \<Rightarrow> None | Inr g \<Rightarrow> emitted g)"


text \<open>
  \<open>tiles lo rs hi\<close>: the ranges \<open>rs\<close>, in their order, tile the interval from \<open>lo\<close> up
  to but excluding \<open>hi\<close>: the first starts at \<open>lo\<close>, no range is empty, each starts one
  past the stop of the one before, and the last stops at \<open>hi - 1\<close>.
\<close>

fun tiles :: "nat \<Rightarrow> (u64 \<times> u64) list \<Rightarrow> nat \<Rightarrow> bool" where
  "tiles lo [] hi = (lo = hi)"
| "tiles lo ((a, b) # rs) hi =
     (unat a = lo \<and> lo \<le> unat b \<and> unat b < hi \<and> tiles (unat b + 1) rs hi)"

text \<open>
  A world without faults, for concrete runs: every URL parses to the path \<open>p\<close>, every
  request is answered with status 200 and the headers \<open>h\<close>, and the body of the answer
  to a ranged request is the text of its own \<^verbatim>\<open>Range\<close> header (the body of any other
  request is \<open>whole\<close>).
\<close>

definition quiet_world :: "string \<Rightarrow> header \<Rightarrow> bytes \<Rightarrow> world" where
  "quiet_world p h whole =
     \<lparr>url_Parse = (\<lambda>_. Inr \<lparr>Path = p\<rparr>),
      mediaParams = (\<lambda>_. Inr (\<lambda>_. None)),
      NewRequest = (\<lambda>_ _. None),
      RoundTrip = (\<lambda>r. Inr \<lparr>StatusCode = 200, Header = h,
                             Body = (case RangeHeader r of None \<Rightarrow> whole | Some x \<Rightarrow> x)\<rparr>),
      create_fails = (\<lambda>_. False),
      copy_fails = (\<lambda>_. False),
      open_fails = (\<lambda>_. False),
      append_fault = (\<lambda>_. None),
      remove_fails = (\<lambda>_. False),
      rename_fails = (\<lambda>_ _. False)\<rparr>"

definition ranged_headers :: "string \<Rightarrow> header" where
  "ranged_headers len = [''Content-Length'' \<mapsto> [len], ''Accept-Ranges'' \<mapsto> [''bytes'']]"

text \<open>
  The number that a string of decimal digits denotes, and the Content-Length values
  that \<^verbatim>\<open>strconv.ParseUint\<close> accepts: not empty, decimal digits only, below \<open>2 ^ 64\<close>.
\<close>

definition decimal :: "string \<Rightarrow> nat" where
  "decimal s = foldl (\<lambda>n c. 10 * n + digit_val c) 0 s"

definition valid_length :: "string \<Rightarrow> bool" where
  "valid_length s = (s \<noteq> [] \<and> list_all is_digit s \<and> decimal s < 2 ^ 64)"

text \<open>
  Worlds with one fault each, for a resource of 11 bytes at \<open>/a/f.bin\<close>: every ranged
  request fails in the transport; every ranged request is answered with status 404
  and the body \<open>gone\<close>; the chunk of index 1 cannot be created.
\<close>

definition fetch_fails_world :: world where
  "fetch_fails_world =
     (quiet_world ''/a/f.bin'' (ranged_headers ''11'') [])
       \<lparr>RoundTrip :=
          (\<lambda>r. case RangeHeader r of
                  None \<Rightarrow> Inr \<lparr>StatusCode = 200, Header = ranged_headers ''11'', Body = []\<rparr>
                | Some _ \<Rightarrow> Inl TransportError)\<rparr>"

definition not_found_world :: world where
  "not_found_world =
     (quiet_world ''/a/f.bin'' (ranged_headers ''11'') [])
       \<lparr>RoundTrip :=
          (\<lambda>r. case RangeHeader r of
                  None \<Rightarrow> Inr \<lparr>StatusCode = 200, Header = ranged_headers ''11'', Body = []\<rparr>
                | Some _ \<Rightarrow> Inr \<lparr>StatusCode = 404, Header = (\<lambda>_. None), Body = ''gone''\<rparr>)\<rparr>"

definition unwritable_world :: world where
  "unwritable_world =
     (quiet_world ''/a/f.bin'' (ranged_headers ''11'') [])
       \<lparr>create_fails := (\<lambda>name. name = ''f.bin.1'')\<rparr>"

text \<open>
  A world for a URL without a path, such as \<^verbatim>\<open>http://example.com\<close>: the parsed path is
  empty, and \<open>.\<close>, the working directory, can neither be created as a file nor be the
  target of a renaming.
\<close>

definition dot_world :: "header \<Rightarrow> bytes \<Rightarrow> world" where
  "dot_world h whole =
     (quiet_world [] h whole)
       \<lparr>create_fails := (\<lambda>name. name = ''.''), rename_fails := (\<lambda>old new. new = ''.'')\<rparr>"

section \<open>The partitioner: what it does\<close>

lemma generator_exhausted:
  "contentLength g \<le> start g \<Longrightarrow> generator g = ((0, 0), g)"
  by (simp add: generator_def)

lemma generator_zero_batch:
  assumes "batchSize g = 0" and "start g < contentLength g"
  shows "generator g = ((start g, start g - 1), g)"
proof -
  from assms(2) have live: "(contentLength g \<le> start g) = False" "(contentLength g < start g) = False"
    by auto
  show ?thesis
    unfolding generator_def Let_def live by (simp add: assms(1) live)
qed

lemma generator_live:
  assumes "start g < contentLength g"
  shows "generator g =
     ((start g, (if contentLength g < start g + batchSize g then contentLength g
                 else start g + batchSize g) - 1),
      g\<lparr>start := start g + batchSize g\<rparr>)"
proof -
  from assms have live: "(contentLength g \<le> start g) = False"
    by auto
  show ?thesis
    unfolding generator_def Let_def live by simp
qed

lemma emitted_exhausted: "contentLength g \<le> start g \<Longrightarrow> emitted g = Some []"
  by (subst emitted.simps) simp

lemma emitted_unfold_live:
  assumes "start g < contentLength g"
  shows "emitted g =
     Option.bind (emitted (g\<lparr>start := start g + batchSize g\<rparr>))
       (\<lambda>rs. Some ((start g, (if contentLength g < start g + batchSize g then contentLength g
                 else start g + batchSize g) - 1) # rs))"
proof -
  from assms have live: "(contentLength g \<le> start g) = False"
    by auto
  show ?thesis
    by (subst emitted.simps) (simp add: live generator_live [OF assms])
qed

subsection \<open>A batch size of zero: the cursor never moves\<close>

text \<open>
  Both loops are least fixed points, so a result \<open>Some\<close> is reached after finitely many
  unfoldings; the induction over those shows that a generator whose batch size is 0
  and whose cursor is below the content length gives none.
\<close>

lemma emitted_Some_not_stuck:
  assumes "emitted g = Some rs"
  shows "\<not> (batchSize g = 0 \<and> start g < contentLength g)"
proof (rule emitted.raw_induct
    [where P = "\<lambda>g rs. \<not> (batchSize g = 0 \<and> start g < contentLength g)", OF _ assms])
  fix em :: "batch_state \<Rightarrow> (u64 \<times> u64) list option" and g rs
  assume IH: "\<And>g rs. em g = Some rs \<Longrightarrow> \<not> (batchSize g = 0 \<and> start g < contentLength g)"
    and body: "(if contentLength g \<le> start g then Some []
      else case generator g of (r, g') \<Rightarrow> Option.bind (em g') (\<lambda>rs. Some (r # rs))) = Some rs"
  show "\<not> (batchSize g = 0 \<and> start g < contentLength g)"
  proof
    assume stuck: "batchSize g = 0 \<and> start g < contentLength g"
    then have "generator g = ((start g, start g - 1), g)"
      by (simp add: generator_zero_batch)
    moreover from stuck have "(contentLength g \<le> start g) = False"
      by auto
    ultimately obtain rs' where "em g = Some rs'"
      using body by (auto split: bind_splits)
    with IH stuck show False by blast
  qed
qed

lemma emitted_zero_batch:
  "batchSize g = 0 \<Longrightarrow> start g < contentLength g \<Longrightarrow> emitted g = None"
  using emitted_Some_not_stuck [of g] by (cases "emitted g") auto

lemma dispatch_Some_not_stuck:
  assumes "dispatch g n acc = Some res"
  shows "\<not> (batchSize g = 0 \<and> start g < contentLength g)"
proof (rule dispatch.raw_induct
    [where P = "\<lambda>g n acc res. \<not> (batchSize g = 0 \<and> start g < contentLength g)", OF _ assms])
  fix dp :: "batch_state \<Rightarrow> nat \<Rightarrow> task list \<Rightarrow> (nat \<times> task list) option"
    and g n acc res
  assume IH: "\<And>g n acc res. dp g n acc = Some res \<Longrightarrow>
        \<not> (batchSize g = 0 \<and> start g < contentLength g)"
    and body: "(case generator g of
        ((startRange, stopRange), g') \<Rightarrow>
          if startRange = 0 \<and> stopRange = 0 then Some (n, acc)
          else dp g' (n + 1) (acc @ [(n, startRange, stopRange)])) = Some res"
  show "\<not> (batchSize g = 0 \<and> start g < contentLength g)"
  proof
    assume stuck: "batchSize g = 0 \<and> start g < contentLength g"
    then have gen: "generator g = ((start g, start g - 1), g)"
      by (simp add: generator_zero_batch)
    have "\<not> (start g = 0 \<and> start g - 1 = 0)"
      by auto
    with gen body have "dp g (n + 1) (acc @ [(n, start g, start g - 1)]) = Some res"
      by (auto split: if_splits)
    with IH stuck show False by blast
  qed
qed

lemma dispatch_zero_batch:
  "batchSize g = 0 \<Longrightarrow> start g < contentLength g \<Longrightarrow> dispatch g n acc = None"
  using dispatch_Some_not_stuck [of g n acc] by (cases "dispatch g n acc") auto

lemma batchSize_zero: "cl < (fanOut :: u64) \<Longrightarrow> cl div fanOut = 0"
  by (simp add: word_less_nat_alt word_unat_eq_iff unat_div)

lemma batchSize_pos:
  assumes "1 \<le> (fanOut :: u64)" and "fanOut \<le> cl"
  shows "0 < cl div fanOut"
proof -
  from assms have "0 < unat fanOut" "unat fanOut \<le> unat cl"
    by (simp_all add: word_le_nat_alt)
  then have "0 < unat cl div unat fanOut"
    by (simp add: div_greater_zero_iff)
  then show ?thesis
    by (simp add: word_less_nat_alt unat_div)
qed

subsection \<open>A positive batch size: the ranges tile the content\<close>

lemma emitted_tiles:
  assumes bs: "0 < batchSize g"
    and fit: "unat (contentLength g) + unat (batchSize g) \<le> 2 ^ 64"
    and live: "start g < contentLength g"
  shows "\<exists>rs. emitted g = Some rs \<and> rs \<noteq> [] \<and>
           tiles (unat (start g)) rs (unat (contentLength g))"
  using assms
proof (induction "unat (contentLength g) - unat (start g)" arbitrary: g rule: less_induct)
  case less
  let ?s = "start g" and ?b = "batchSize g" and ?c = "contentLength g"
  let ?g' = "g\<lparr>start := ?s + ?b\<rparr>"
  from less.prems have s_lt: "unat ?s < unat ?c"
    by (simp add: word_less_nat_alt)
  from less.prems have b_pos: "0 < unat ?b"
    by (simp add: word_less_nat_alt)
  from s_lt less.prems(2) have nowrap: "unat (?s + ?b) = unat ?s + unat ?b"
    by (simp add: unat_word_ariths)
  from s_lt have "?c \<noteq> 0"
    by auto
  then have c_pos: "unat (?c - 1) + 1 = unat ?c"
    using s_lt by (simp add: unat_minus_one)
  show ?case
  proof (cases "?s + ?b < ?c")
    case True
    then have lt': "unat ?s + unat ?b < unat ?c"
      using nowrap by (simp add: word_less_nat_alt)
    have "\<exists>rs. emitted ?g' = Some rs \<and> rs \<noteq> [] \<and>
        tiles (unat (start ?g')) rs (unat (contentLength ?g'))"
    proof (rule less.hyps)
      show "unat (contentLength ?g') - unat (start ?g') < unat ?c - unat ?s"
        using nowrap lt' b_pos by simp
      show "0 < batchSize ?g'"
        using less.prems by simp
      show "unat (contentLength ?g') + unat (batchSize ?g') \<le> 2 ^ 64"
        using less.prems by simp
      show "start ?g' < contentLength ?g'"
        using True by simp
    qed
    then obtain rs where rs: "emitted ?g' = Some rs" "tiles (unat ?s + unat ?b) rs (unat ?c)"
      using nowrap by auto
    from True have notgt: "(?c < ?s + ?b) = False"
      by auto
    from b_pos nowrap have "?s + ?b \<noteq> 0"
      by (metis add_gr_0 unat_gt_0)
    then have stop: "unat (?s + ?b - 1) + 1 = unat ?s + unat ?b"
      using nowrap b_pos by (simp add: unat_minus_one)
    have "emitted g = Some ((?s, ?s + ?b - 1) # rs)"
      by (simp add: emitted_unfold_live [OF less.prems(3)] notgt rs(1))
    moreover have "tiles (unat ?s) ((?s, ?s + ?b - 1) # rs) (unat ?c)"
      using rs(2) stop lt' b_pos by simp
    ultimately show ?thesis by blast
  next
    case False
    then have ex: "contentLength ?g' \<le> start ?g'"
      by simp
    have clamp: "(if ?c < ?s + ?b then ?c else ?s + ?b) = ?c"
      using False by auto
    have "emitted g = Some [(?s, ?c - 1)]"
      by (simp add: emitted_unfold_live [OF less.prems(3)] clamp emitted_exhausted [OF ex])
    moreover have "tiles (unat ?s) [(?s, ?c - 1)] (unat ?c)"
      using c_pos s_lt by simp
    ultimately show ?thesis by blast
  qed
qed

lemma tiles_le: "tiles lo rs hi \<Longrightarrow> lo \<le> hi"
  by (induction rs arbitrary: lo) auto

lemma tiles_hd: "tiles lo rs hi \<Longrightarrow> rs \<noteq> [] \<Longrightarrow> unat (fst (hd rs)) = lo"
  by (cases rs) auto

lemma tiles_last: "tiles lo rs hi \<Longrightarrow> rs \<noteq> [] \<Longrightarrow> unat (snd (last rs)) + 1 = hi"
  by (induction rs arbitrary: lo) (auto split: if_splits)

text \<open>Every offset of the interval lies in exactly one range, and no other offset in any.\<close>

lemma tiles_covers_once:
  "tiles lo rs hi \<Longrightarrow>
   length (filter (\<lambda>(a, b). unat a \<le> k \<and> k \<le> unat b) rs) = (if lo \<le> k \<and> k < hi then 1 else 0)"
proof (induction rs arbitrary: lo)
  case Nil
  then show ?case by simp
next
  case (Cons r rs)
  obtain a b where r: "r = (a, b)" by (cases r)
  from Cons.prems r have t: "unat a = lo" "lo \<le> unat b" "unat b < hi" "tiles (unat b + 1) rs hi"
    by simp_all
  from Cons.IH [OF t(4)] t show ?case
    by (auto simp: r)
qed

lemma tiles_adjacent:
  "tiles lo rs hi \<Longrightarrow> Suc i < length rs \<Longrightarrow>
   unat (fst (rs ! i)) \<le> unat (snd (rs ! i)) \<and> unat (fst (rs ! Suc i)) = unat (snd (rs ! i)) + 1"
proof (induction rs arbitrary: lo i)
  case Nil
  then show ?case by simp
next
  case (Cons r rs)
  obtain a b where r: "r = (a, b)" by (cases r)
  from Cons.prems r have t: "unat a = lo" "lo \<le> unat b" "unat b < hi" "tiles (unat b + 1) rs hi"
    by simp_all
  show ?case
  proof (cases i)
    case 0
    with Cons.prems(2) have "rs \<noteq> []" by auto
    with tiles_hd [OF t(4)] t 0 show ?thesis
      by (simp add: r hd_conv_nth)
  next
    case (Suc j)
    with Cons.prems(2) have "Suc j < length rs" by simp
    from Cons.IH [OF t(4) this] Suc show ?thesis by simp
  qed
qed

text \<open>
  Where the fan-out is at least 1 and at most the content length, and the content
  length plus the batch size does not pass \<open>2 ^ 64\<close>, the generator reaches its
  exhausted branch and the ranges it handed out before tile the content.
\<close>

lemma tiles_ends:
  assumes "tiles 0 rs (unat (cl :: u64))" and "rs \<noteq> []"
  shows "fst (hd rs) = 0 \<and> snd (last rs) = cl - 1"
proof -
  have "unat (fst (hd rs)) = 0"
    using tiles_hd [OF assms] .
  then have first: "fst (hd rs) = 0"
    by (simp add: unat_eq_0)
  have l: "unat (snd (last rs)) + 1 = unat cl"
    using tiles_last [OF assms] .
  then have "cl \<noteq> 0"
    by (metis Suc_eq_plus1 nat.distinct(1) unat_0)
  then have "unat (cl - 1) = unat cl - 1"
    by (rule unat_minus_one)
  with l have "unat (snd (last rs)) = unat (cl - 1)"
    by simp
  then have "snd (last rs) = cl - 1"
    by (simp add: word_unat_eq_iff)
  with first show ?thesis by simp
qed

theorem batchGenerator_partitions:
  assumes "1 \<le> fanOut" and "fanOut \<le> cl"
    and "unat cl + unat cl div unat fanOut \<le> 2 ^ 64"
  shows "\<exists>rs. ranges_of cl fanOut = Some rs \<and> rs \<noteq> [] \<and> tiles 0 rs (unat cl) \<and>
           fst (hd rs) = 0 \<and> snd (last rs) = cl - 1 \<and>
           (\<forall>k. length (filter (\<lambda>(a, b). unat a \<le> k \<and> k \<le> unat b) rs) =
                  (if k < unat cl then 1 else 0))"
proof -
  let ?g = "\<lparr>contentLength = cl, batchSize = cl div fanOut, start = 0\<rparr>"
  from assms(1) have nz: "fanOut \<noteq> 0"
    by auto
  then have gen: "batchGenerator cl fanOut = Inr ?g"
    by (simp add: batchGenerator_def)
  have "0 < batchSize ?g"
    using batchSize_pos [OF assms(1,2)] by simp
  moreover have "unat (contentLength ?g) + unat (batchSize ?g) \<le> 2 ^ 64"
    using assms(3) by (simp add: unat_div)
  moreover have "start ?g < contentLength ?g"
    using assms(1,2) by (simp add: word_less_nat_alt word_le_nat_alt)
  ultimately have "\<exists>rs. emitted ?g = Some rs \<and> rs \<noteq> [] \<and>
      tiles (unat (start ?g)) rs (unat (contentLength ?g))"
    by (rule emitted_tiles)
  then obtain rs where rs: "emitted ?g = Some rs" "rs \<noteq> []" "tiles 0 rs (unat cl)"
    by auto
  have "\<forall>k. length (filter (\<lambda>(a, b). unat a \<le> k \<and> k \<le> unat b) rs) =
                  (if k < unat cl then 1 else 0)"
    using tiles_covers_once [OF rs(3)] by simp
  with rs tiles_ends [OF rs(3,2)] show ?thesis
    by (auto simp: ranges_of_def gen)
qed

theorem batchGenerator_partitions_witness:
  "(1::u64) \<le> 3 \<and> (3::u64) \<le> 11 \<and>
   (\<exists>rs. ranges_of 11 3 = Some rs \<and> rs \<noteq> [] \<and> tiles 0 rs 11 \<and>
         fst (hd rs) = 0 \<and> snd (last rs) = 10)"
  using batchGenerator_partitions [of 3 11] by auto

text \<open>
  The bound on the content length is needed: near \<open>2 ^ 64\<close> the cursor wraps around.
  With a content length of \<open>2 ^ 64 - 1\<close> and a fan-out of 2 the third call starts at
  \<open>2 ^ 64 - 2\<close>, returns a range whose stop is below its start, and sets the cursor
  back.
\<close>

lemma cursor_wraps_near_the_top:
  "generator \<lparr>contentLength = 18446744073709551615, batchSize = 9223372036854775807,
              start = 18446744073709551614\<rparr> =
     ((18446744073709551614, 9223372036854775804),
      \<lparr>contentLength = 18446744073709551615, batchSize = 9223372036854775807,
        start = 9223372036854775805\<rparr>)"
  by (simp add: generator_def word_le_nat_alt word_less_nat_alt)

subsection \<open>The dispatch loop against the generator\<close>

text \<open>
  Whenever the generator reaches its exhausted branch, the dispatch loop ends, and the
  tasks it has spawned are the ranges handed out before the first pair \<open>(0, 0)\<close>,
  numbered from the loop's counter in the order of their emission.
\<close>

lemma dispatch_of_emitted:
  assumes "emitted g = Some rs"
  shows "dispatch g n acc =
     Some (n + length (takeWhile (\<lambda>r. r \<noteq> (0, 0)) rs),
           acc @ List.enumerate n (takeWhile (\<lambda>r. r \<noteq> (0, 0)) rs))"
proof -
  have "\<forall>n acc. dispatch g n acc =
     Some (n + length (takeWhile (\<lambda>r. r \<noteq> (0, 0)) rs),
           acc @ List.enumerate n (takeWhile (\<lambda>r. r \<noteq> (0, 0)) rs))"
  proof (rule emitted.raw_induct
      [where P = "\<lambda>g rs. \<forall>n acc. dispatch g n acc =
         Some (n + length (takeWhile (\<lambda>r. r \<noteq> (0, 0)) rs),
               acc @ List.enumerate n (takeWhile (\<lambda>r. r \<noteq> (0, 0)) rs))", OF _ assms])
    fix em :: "batch_state \<Rightarrow> (u64 \<times> u64) list option" and g rs
    assume IH: "\<And>g rs. em g = Some rs \<Longrightarrow> \<forall>n acc. dispatch g n acc =
         Some (n + length (takeWhile (\<lambda>r. r \<noteq> (0, 0)) rs),
               acc @ List.enumerate n (takeWhile (\<lambda>r. r \<noteq> (0, 0)) rs))"
      and body: "(if contentLength g \<le> start g then Some []
        else case generator g of (r, g') \<Rightarrow> Option.bind (em g') (\<lambda>rs. Some (r # rs))) = Some rs"
    show "\<forall>n acc. dispatch g n acc =
         Some (n + length (takeWhile (\<lambda>r. r \<noteq> (0, 0)) rs),
               acc @ List.enumerate n (takeWhile (\<lambda>r. r \<noteq> (0, 0)) rs))"
    proof (cases "contentLength g \<le> start g")
      case True
      with body have "rs = []" by simp
      moreover from True have "generator g = ((0, 0), g)"
        by (rule generator_exhausted)
      ultimately show ?thesis
        by (subst dispatch.simps) simp
    next
      case False
      obtain a b g' where gen: "generator g = ((a, b), g')"
        by (metis surj_pair)
      with False body obtain rs' where rs': "em g' = Some rs'" "rs = (a, b) # rs'"
        by (auto split: bind_splits)
      show ?thesis
      proof (intro allI)
        fix n acc
        show "dispatch g n acc =
         Some (n + length (takeWhile (\<lambda>r. r \<noteq> (0, 0)) rs),
               acc @ List.enumerate n (takeWhile (\<lambda>r. r \<noteq> (0, 0)) rs))"
        proof (cases "a = 0 \<and> b = 0")
          case True
          then show ?thesis
            by (subst dispatch.simps) (simp add: gen rs'(2))
        next
          case False
          then have "dispatch g n acc = dispatch g' (n + 1) (acc @ [(n, a, b)])"
            by (subst dispatch.simps) (auto simp: gen)
          also have "\<dots> = Some (n + 1 + length (takeWhile (\<lambda>r. r \<noteq> (0, 0)) rs'),
               (acc @ [(n, a, b)]) @ List.enumerate (n + 1) (takeWhile (\<lambda>r. r \<noteq> (0, 0)) rs'))"
            using IH [OF rs'(1)] by blast
          finally show ?thesis
            using False by (auto simp: rs'(2))
        qed
      qed
    qed
  qed
  then show ?thesis by blast
qed

lemmas world_eval =
  parseURLAndCaptureFilename_def quiet_world_def ranged_headers_def getHeaders_def
  path_Base_def header_Get_def extractDownloadDetailsFromHeaders_def contentLengthHeader_def
  contentDispositionHeader_def ParseUint_def is_digit_def digit_val_def cutoff_def maxVal_def

subsection \<open>The claims about the partitioner\<close>

text \<open>
  Claim C1: for every content length and fan-out of at least 1, the ranges handed out
  before the first exhausted result cover the content exactly once. The code does not
  do this when the fan-out exceeds the content length. For a content length of 1 and a
  fan-out of 2 the batch size is 0: every call returns the pair \<open>(0, 2 ^ 64 - 1)\<close>,
  whose stop lies far beyond the content, the cursor stays at 0, and the exhausted
  branch is never reached, so there is no finite sequence of ranges at all.
  (For a fan-out of at most the content length the property holds:
  \<open>batchGenerator_partitions\<close>.)
\<close>

theorem fanout_above_length_no_partition:
  "batchGenerator 1 2 = Inr \<lparr>contentLength = 1, batchSize = 0, start = 0\<rparr> \<and>
   generator \<lparr>contentLength = 1, batchSize = 0, start = 0\<rparr> =
     ((0, 18446744073709551615), \<lparr>contentLength = 1, batchSize = 0, start = 0\<rparr>) \<and>
   ranges_of 1 2 = None"
proof -
  let ?g = "\<lparr>contentLength = 1, batchSize = 0, start = 0\<rparr> :: batch_state"
  have gen: "batchGenerator 1 2 = Inr ?g"
    by (simp add: batchGenerator_def batchSize_zero)
  have "generator ?g = ((0, 18446744073709551615), ?g)"
    using generator_zero_batch [of ?g] by simp
  moreover have "emitted ?g = None"
    using emitted_zero_batch [of ?g] by simp
  ultimately show ?thesis
    using gen by (simp add: ranges_of_def)
qed




text \<open>
  Claim C3: a fan-out above the content length must end without an endless loop and
  without an unsigned underflow. The code does neither. Whenever the probe has found a
  content length of at least 1 and the fan-out is larger, the batch size is 0, the stop
  of every range is \<open>0 - 1\<close>, which wraps to \<open>2 ^ 64 - 1\<close>, the generator never
  returns the pair that ends the dispatch loop, and \<^verbatim>\<open>parallelDownload\<close> never returns.
\<close>

theorem fanout_above_length_never_returns:
  assumes "parseURLAndCaptureFilename (url_Parse w) u = (fallback, None)"
    and "getHeaders w u = Inr h"
    and "header_Get h ''Accept-Ranges'' = ''bytes''"
    and "extractDownloadDetailsFromHeaders (mediaParams w) h = (name, cl, None)"
    and "1 \<le> cl" and "cl < fanOut"
  shows "parallelDownload w u fanOut fs = None \<and>
    (\<exists>g. batchGenerator cl fanOut = Inr g \<and> batchSize g = 0 \<and>
         generator g = ((0, 18446744073709551615), g) \<and>
         emitted g = None \<and> dispatch g 0 [] = None)"
proof -
  let ?g = "\<lparr>contentLength = cl, batchSize = 0, start = 0\<rparr>"
  from assms(5,6) have nz: "fanOut \<noteq> 0"
    by auto
  with assms(6) have gen: "batchGenerator cl fanOut = Inr ?g"
    by (simp add: batchGenerator_def batchSize_zero)
  from assms(5) have live: "start ?g < contentLength ?g"
    by (simp add: word_less_nat_alt word_le_nat_alt)
  have step: "generator ?g = ((0, 18446744073709551615), ?g)"
    using generator_zero_batch [OF _ live] by simp
  have em: "emitted ?g = None"
    using emitted_zero_batch [OF _ live] by simp
  have dp: "dispatch ?g 0 [] = None"
    using dispatch_zero_batch [OF _ live] by simp
  have "parallelDownload w u fanOut fs = None"
    by (simp add: parallelDownload_def assms(1-4) gen dp)
  with gen step em dp show ?thesis
    by simp
qed

theorem fanout_above_length_never_returns_witness:
  "(1::u64) \<le> 1 \<and> (1::u64) < 2 \<and>
   parallelDownload (quiet_world ''/a/f.bin'' (ranged_headers ''1'') []) ''u'' 2 Map.empty = None"
  using fanout_above_length_never_returns
    [of "quiet_world ''/a/f.bin'' (ranged_headers ''1'') []" "''u''" "''f.bin''"
      "ranged_headers ''1''" "[]" 1 2 Map.empty]
  by (simp add: world_eval)

text \<open>
  Claim C4: one fetch task per range of the partition, also when the first range is
  the single byte \<open>(0, 0)\<close>. The code does not do this: the dispatch loop takes the
  first pair \<open>(0, 0)\<close> for the end of the ranges. For a content length of 1 and a
  fan-out of 1 the partition is the one range \<open>(0, 0)\<close> and for a content length of 3
  and a fan-out of 3 it is three ranges, yet the loop spawns no task and counts no
  file; with no chunk on disk \<^verbatim>\<open>parallelDownload\<close> then panics when it opens the base
  chunk.
\<close>

theorem first_single_byte_range_ends_dispatch:
  "ranges_of 1 1 = Some [(0, 0)] \<and>
   dispatch \<lparr>contentLength = 1, batchSize = 1, start = 0\<rparr> 0 [] = Some (0, []) \<and>
   ranges_of 3 3 = Some [(0, 0), (1, 1), (2, 2)] \<and>
   dispatch \<lparr>contentLength = 3, batchSize = 1, start = 0\<rparr> 0 [] = Some (0, []) \<and>
   parallelDownload (quiet_world ''/a/f.bin'' (ranged_headers ''1'') []) ''u'' 1 Map.empty =
     Some (Inl (PanicWith FileError))"
proof -
  have "ranges_of 1 1 = Some [(0, 0)]"
    by (simp add: ranges_of_def batchGenerator_def emitted.simps generator_def word_le_nat_alt word_less_nat_alt)
  moreover have "ranges_of 3 3 = Some [(0, 0), (1, 1), (2, 2)]"
    by (simp add: ranges_of_def batchGenerator_def emitted.simps generator_def word_le_nat_alt word_less_nat_alt)
  moreover have "dispatch \<lparr>contentLength = 1, batchSize = 1, start = 0\<rparr> 0 [] = Some (0, [])"
    by (simp add: dispatch.simps generator_def word_le_nat_alt word_less_nat_alt)
  moreover have "dispatch \<lparr>contentLength = 3, batchSize = 1, start = 0\<rparr> 0 [] = Some (0, [])"
    by (simp add: dispatch.simps generator_def word_le_nat_alt word_less_nat_alt)
  moreover have "parallelDownload (quiet_world ''/a/f.bin'' (ranged_headers ''1'') []) ''u'' 1
      Map.empty = Some (Inl (PanicWith FileError))"
    by (simp add: parallelDownload_def world_eval batchGenerator_def dispatch.simps
        generator_def reassemble_def os_Open_def)
  ultimately show ?thesis
    by simp
qed

section \<open>The fetch tasks: failures and the status code\<close>

lemmas run_eval =
  parallelDownload_def world_eval batchGenerator_def dispatch.simps generator_def
  word_le_nat_alt word_less_nat_alt fetch_task_def downloadRangeBytes_def dataWriter_def
  Write_def chunk_name_def itoa.simps range_header_def reassemble_def os_Open_def
  merge_chunks.simps io_Copy_append_def os_Remove_def os_Rename_def Let_def

lemmas task_eval =
  fetch_task_def downloadRangeBytes_def dataWriter_def Write_def chunk_name_def
  itoa.simps range_header_def quiet_world_def ranged_headers_def

lemma run_tasks_append:
  "run_tasks w f u (ts1 @ ts2) st =
     (case run_tasks w f u ts1 st of Inl p \<Rightarrow> Inl p | Inr st1 \<Rightarrow> run_tasks w f u ts2 st1)"
  by (induction ts1 arbitrary: st) (auto split: sum.splits)

text \<open>
  Claim C5, as the code has it. A failure of a fetch task is never handed to the
  caller as an error value. The task panics, and with it the process ends, when the
  request cannot be created, when the round trip fails, and when the chunk file cannot
  be created or the copy into it fails; a panic of any task is the outcome of
  \<^verbatim>\<open>parallelDownload\<close>. The status code of the response is never read: whatever it is,
  the task writes the body to its chunk file and ends without an error. An error that
  \<^verbatim>\<open>parallelDownload\<close> does return is one of the four found before any task is started:
  of the URL, of the probe, the missing range support, or of the headers.
\<close>

theorem fetch_failure_panics_status_unread:
  "(NewRequest w ''GET'' u = Some e \<longrightarrow>
      fetch_task w f u (i, a, b) st = Inl (PanicWith e)) \<and>
   (NewRequest w ''GET'' u = None \<and>
    RoundTrip w \<lparr>Method = ''GET'', URL = u, RangeHeader = Some (range_header a b)\<rparr> = Inl e \<longrightarrow>
      fetch_task w f u (i, a, b) st = Inl (PanicWith e)) \<and>
   (NewRequest w ''GET'' u = None \<and>
    RoundTrip w \<lparr>Method = ''GET'', URL = u, RangeHeader = Some (range_header a b)\<rparr> = Inr res \<longrightarrow>
      fetch_task w f u (i, a, b) st =
        (if create_fails w (chunk_name f i) \<or> copy_fails w (chunk_name f i)
         then Inl (PanicWith FileError)
         else Inr ((fst st)(chunk_name f i \<mapsto> Body res), fst (Write (snd st) (Body res))))) \<and>
   (run_tasks w f u ts1 st = Inr st1 \<and> fetch_task w f u t st1 = Inl p \<longrightarrow>
      run_tasks w f u (ts1 @ t # ts2) st = Inl p) \<and>
   (parseURLAndCaptureFilename (url_Parse w) u = (fallback, None) \<and>
    getHeaders w u = Inr h \<and> header_Get h ''Accept-Ranges'' = ''bytes'' \<and>
    extractDownloadDetailsFromHeaders (mediaParams w) h = (name0, cl, None) \<and>
    batchGenerator cl n = Inr g \<and> dispatch g 0 [] = Some (m, spawned) \<and>
    run_tasks w (if name0 = [] then fallback else name0) u spawned
      (fs, \<lparr>maxBytes = cl, readBytes = 0\<rparr>) = Inl p \<longrightarrow>
      parallelDownload w u n fs = Some (Inl p)) \<and>
   (parallelDownload w u n fs = Some (Inr ((nm, Some err), fs')) \<longrightarrow>
      snd (parseURLAndCaptureFilename (url_Parse w) u) = Some err \<or>
      getHeaders w u = Inl err \<or>
      err = ErrNoParallelDownload \<or>
      (\<exists>h. getHeaders w u = Inr h \<and>
           snd (snd (extractDownloadDetailsFromHeaders (mediaParams w) h)) = Some err))"
proof (intro conjI impI)
  assume "NewRequest w ''GET'' u = Some e"
  then show "fetch_task w f u (i, a, b) st = Inl (PanicWith e)"
    by (simp add: fetch_task_def downloadRangeBytes_def)
next
  assume "NewRequest w ''GET'' u = None \<and>
    RoundTrip w \<lparr>Method = ''GET'', URL = u, RangeHeader = Some (range_header a b)\<rparr> = Inl e"
  then show "fetch_task w f u (i, a, b) st = Inl (PanicWith e)"
    by (simp add: fetch_task_def downloadRangeBytes_def)
next
  assume "NewRequest w ''GET'' u = None \<and>
    RoundTrip w \<lparr>Method = ''GET'', URL = u, RangeHeader = Some (range_header a b)\<rparr> = Inr res"
  then show "fetch_task w f u (i, a, b) st =
        (if create_fails w (chunk_name f i) \<or> copy_fails w (chunk_name f i)
         then Inl (PanicWith FileError)
         else Inr ((fst st)(chunk_name f i \<mapsto> Body res), fst (Write (snd st) (Body res))))"
    by (auto simp: fetch_task_def downloadRangeBytes_def dataWriter_def)
next
  assume "run_tasks w f u ts1 st = Inr st1 \<and> fetch_task w f u t st1 = Inl p"
  then show "run_tasks w f u (ts1 @ t # ts2) st = Inl p"
    by (simp add: run_tasks_append)
next
  assume "parseURLAndCaptureFilename (url_Parse w) u = (fallback, None) \<and>
    getHeaders w u = Inr h \<and> header_Get h ''Accept-Ranges'' = ''bytes'' \<and>
    extractDownloadDetailsFromHeaders (mediaParams w) h = (name0, cl, None) \<and>
    batchGenerator cl n = Inr g \<and> dispatch g 0 [] = Some (m, spawned) \<and>
    run_tasks w (if name0 = [] then fallback else name0) u spawned
      (fs, \<lparr>maxBytes = cl, readBytes = 0\<rparr>) = Inl p"
  then show "parallelDownload w u n fs = Some (Inl p)"
    by (simp add: parallelDownload_def Let_def)
next
  assume "parallelDownload w u n fs = Some (Inr ((nm, Some err), fs'))"
  then show "snd (parseURLAndCaptureFilename (url_Parse w) u) = Some err \<or>
      getHeaders w u = Inl err \<or>
      err = ErrNoParallelDownload \<or>
      (\<exists>h. getHeaders w u = Inr h \<and>
           snd (snd (extractDownloadDetailsFromHeaders (mediaParams w) h)) = Some err)"
    by (auto simp: parallelDownload_def Let_def
        split: prod.splits option.splits sum.splits if_splits)
qed

theorem fetch_failure_panics_status_unread_witness:
  "fetch_task fetch_fails_world ''f.bin'' ''u'' (1, 5, 9)
       (Map.empty, \<lparr>maxBytes = 11, readBytes = 0\<rparr>) = Inl (PanicWith TransportError) \<and>
   fetch_task unwritable_world ''f.bin'' ''u'' (1, 5, 9)
       (Map.empty, \<lparr>maxBytes = 11, readBytes = 0\<rparr>) = Inl (PanicWith FileError) \<and>
   fetch_task not_found_world ''f.bin'' ''u'' (1, 5, 9)
       (Map.empty, \<lparr>maxBytes = 11, readBytes = 0\<rparr>)
     = Inr ([''f.bin.1'' \<mapsto> ''gone''], \<lparr>maxBytes = 11, readBytes = 4\<rparr>)"
  using
    fetch_failure_panics_status_unread
      [where w = fetch_fails_world and u = "''u''" and e = TransportError and f = "''f.bin''"
         and i = 1 and a = 5 and b = 9
         and st = "(Map.empty, \<lparr>maxBytes = 11, readBytes = 0\<rparr>)"]
    fetch_failure_panics_status_unread
      [where w = unwritable_world and u = "''u''" and f = "''f.bin''"
         and i = 1 and a = 5 and b = 9
         and st = "(Map.empty, \<lparr>maxBytes = 11, readBytes = 0\<rparr>)"
         and res = "\<lparr>StatusCode = 200, Header = ranged_headers ''11'', Body = ''bytes=5-9''\<rparr>"]
    fetch_failure_panics_status_unread
      [where w = not_found_world and u = "''u''" and f = "''f.bin''"
         and i = 1 and a = 5 and b = 9
         and st = "(Map.empty, \<lparr>maxBytes = 11, readBytes = 0\<rparr>)"
         and res = "\<lparr>StatusCode = 404, Header = (\<lambda>_. None), Body = ''gone''\<rparr>"]
  by (simp add: fetch_fails_world_def unwritable_world_def not_found_world_def task_eval)

text \<open>
  Claim C5 as the specification states it fails: with a transport error in the
  ranged requests, and with a chunk file that cannot be created, \<^verbatim>\<open>parallelDownload\<close>
  panics and returns nothing; and with every range answered by status 404 it returns
  success, the final file made of the bodies of the error responses.
\<close>

theorem fetch_failure_not_reported:
  "parallelDownload fetch_fails_world ''u'' 2 Map.empty = Some (Inl (PanicWith TransportError)) \<and>
   parallelDownload unwritable_world ''u'' 2 Map.empty = Some (Inl (PanicWith FileError)) \<and>
   (\<exists>fs. parallelDownload not_found_world ''u'' 2 Map.empty = Some (Inr ((''f.bin'', None), fs)) \<and>
         fs ''f.bin'' = Some ''gonegonegone'')"
  by (simp add: fetch_fails_world_def unwritable_world_def not_found_world_def run_eval)

section \<open>The header extraction\<close>

lemma foldl_decimal_ge: "m \<le> foldl (\<lambda>n c. 10 * n + digit_val c) m cs"
proof (induction cs arbitrary: m)
  case Nil
  show ?case by simp
next
  case (Cons c cs)
  have "m \<le> 10 * m + digit_val c" by simp
  also have "\<dots> \<le> foldl (\<lambda>n c. 10 * n + digit_val c) (10 * m + digit_val c) cs"
    by (rule Cons.IH)
  finally show ?case by simp
qed

lemma digit_val_le: "is_digit c \<Longrightarrow> digit_val c \<le> 9"
  unfolding is_digit_def digit_val_def by arith

lemma parse_digits_digits:
  assumes "list_all is_digit cs"
  shows "parse_digits cs n =
     (if foldl (\<lambda>n c. 10 * n + digit_val c) (unat n) cs < 2 ^ 64
      then (of_nat (foldl (\<lambda>n c. 10 * n + digit_val c) (unat n) cs), None)
      else (maxVal, Some NumRangeError))"
  using assms
proof (induction cs arbitrary: n)
  case Nil
  have "unat n < 2 ^ 64"
    using unsigned_less [of n] by simp
  then show ?case by simp
next
  case (Cons c cs)
  let ?f = "\<lambda>n c. 10 * n + digit_val c"
  let ?m = "unat n" and ?d = "digit_val c"
  from Cons.prems have dig: "is_digit c" and rest: "list_all is_digit cs"
    by simp_all
  have d9: "?d \<le> 9" using dig by (rule digit_val_le)
  have ud: "unat (of_nat ?d :: u64) = ?d"
    using d9 by (simp add: unat_of_nat)
  show ?case
  proof (cases "cutoff \<le> n")
    case True
    then have "1844674407370955162 \<le> ?m"
      by (simp add: cutoff_def word_le_nat_alt)
    then have "(2::nat) ^ 64 \<le> 10 * ?m + ?d"
      by simp
    also have "\<dots> \<le> foldl ?f (10 * ?m + ?d) cs"
      by (rule foldl_decimal_ge)
    finally have "\<not> foldl ?f ?m (c # cs) < 2 ^ 64"
      by simp
    with True dig show ?thesis
      by simp
  next
    case False
    then have small: "?m \<le> 1844674407370955161"
      by (simp add: cutoff_def word_le_nat_alt)
    then have u10: "unat (n * 10) = 10 * ?m"
      by (simp add: unat_word_ariths)
    show ?thesis
    proof (cases "10 * ?m + ?d < 2 ^ 64")
      case True
      then have u1: "unat (n * 10 + of_nat ?d) = 10 * ?m + ?d"
        by (simp add: unat_word_ariths(1) u10 ud)
      then have "\<not> n * 10 + of_nat ?d < n * 10"
        by (simp add: word_less_nat_alt u10)
      moreover have "\<not> maxVal < n * 10 + of_nat ?d"
        using True by (simp add: maxVal_def word_less_nat_alt u1)
      ultimately have "parse_digits (c # cs) n = parse_digits cs (n * 10 + of_nat ?d)"
        using dig \<open>\<not> cutoff \<le> n\<close> by (simp add: Let_def)
      also note Cons.IH [OF rest, of "n * 10 + of_nat ?d"]
      finally show ?thesis
        by (simp add: u1)
    next
      case False
      then have big: "(2::nat) ^ 64 \<le> 10 * ?m + ?d"
        by simp
      have "unat (n * 10 + of_nat ?d) = (10 * ?m + ?d) mod 2 ^ 64"
        by (simp add: unat_word_ariths(1) u10 ud)
      also have "\<dots> = 10 * ?m + ?d - 2 ^ 64"
        using big small d9 by (simp add: mod_if)
      finally have "n * 10 + of_nat ?d < n * 10"
        using big small d9 by (simp add: word_less_nat_alt u10)
      then have "parse_digits (c # cs) n = (maxVal, Some NumRangeError)"
        using dig \<open>\<not> cutoff \<le> n\<close> by (simp add: Let_def)
      moreover have "\<not> foldl ?f ?m (c # cs) < 2 ^ 64"
        using big foldl_decimal_ge [of "10 * ?m + ?d" cs] by simp
      ultimately show ?thesis
        by simp
    qed
  qed
qed

lemma parse_digits_nondigit:
  "\<not> list_all is_digit cs \<Longrightarrow> snd (parse_digits cs n) \<noteq> None"
  by (induction cs arbitrary: n) (auto simp: Let_def)

lemma ParseUint_spec:
  "ParseUint s = (if valid_length s then (of_nat (decimal s), None)
                  else (fst (ParseUint s), Some (the (snd (ParseUint s)))))
   \<and> (valid_length s \<longleftrightarrow> snd (ParseUint s) = None)"
proof (cases "s = []")
  case True
  then show ?thesis by (simp add: ParseUint_def valid_length_def)
next
  case ne: False
  show ?thesis
  proof (cases "list_all is_digit s")
    case True
    then show ?thesis
      using ne parse_digits_digits [OF True, of 0]
      by (auto simp: ParseUint_def valid_length_def decimal_def)
  next
    case False
    with parse_digits_nondigit [OF False, of 0] ne show ?thesis
      by (auto simp: ParseUint_def valid_length_def prod_eq_iff)
  qed
qed

lemmas header_eval = header_Get_def contentLengthHeader_def contentDispositionHeader_def
  extractDownloadDetailsFromHeaders_def ParseUint_def is_digit_def digit_val_def cutoff_def maxVal_def
  mime_ParseMediaType_def checkMediaTypeDisposition_def consumeToken_def isTokenChar_def
  isTSpecial_def ToLower_def TrimSpace_def isSpace_def word_le_nat_alt word_less_nat_alt

text \<open>
  Claim C6, as the code has it. The extraction fails if and only if the
  Content-Length value is not accepted by \<^verbatim>\<open>strconv.ParseUint\<close> (it is absent or empty,
  holds a byte that is no decimal digit, or denotes a number of \<open>2 ^ 64\<close> or more), or
  the Content-Disposition value is not empty and \<^verbatim>\<open>mime.ParseMediaType\<close> rejects it. An
  absent Content-Length is a syntax error. With an accepted length and no
  Content-Disposition the result is the length and an empty file name; with a
  Content-Disposition that parses, it is the length and the \<open>filename\<close> parameter
  (empty when there is none).
\<close>

theorem header_extraction_outcome:
  "(snd (snd (extractDownloadDetailsFromHeaders mp h)) \<noteq> None \<longleftrightarrow>
      (header_Get h contentDispositionHeader \<noteq> [] \<and>
       isl (mime_ParseMediaType mp (header_Get h contentDispositionHeader))) \<or>
      \<not> valid_length (header_Get h contentLengthHeader)) \<and>
   (h contentLengthHeader = None \<longrightarrow>
      snd (snd (extractDownloadDetailsFromHeaders mp h)) = Some NumSyntaxError) \<and>
   (valid_length (header_Get h contentLengthHeader) \<and>
    header_Get h contentDispositionHeader = [] \<longrightarrow>
      extractDownloadDetailsFromHeaders mp h =
        ([], of_nat (decimal (header_Get h contentLengthHeader)), None)) \<and>
   (valid_length (header_Get h contentLengthHeader) \<and>
    header_Get h contentDispositionHeader \<noteq> [] \<and>
    mime_ParseMediaType mp (header_Get h contentDispositionHeader) = Inr params \<longrightarrow>
      extractDownloadDetailsFromHeaders mp h =
        (case params ''filename'' of None \<Rightarrow> [] | Some f \<Rightarrow> f,
         of_nat (decimal (header_Get h contentLengthHeader)), None))"
proof -
  let ?cl = "header_Get h contentLengthHeader"
  let ?cd = "header_Get h contentDispositionHeader"
  from ParseUint_spec [of ?cl]
  have ok: "valid_length ?cl \<Longrightarrow> ParseUint ?cl = (of_nat (decimal ?cl), None)"
    and bad: "\<not> valid_length ?cl \<Longrightarrow> snd (ParseUint ?cl) \<noteq> None"
    by (simp_all split: if_splits)
  have absent: "h contentLengthHeader = None \<Longrightarrow>
      snd (snd (extractDownloadDetailsFromHeaders mp h)) = Some NumSyntaxError"
    by (simp add: extractDownloadDetailsFromHeaders_def header_Get_def ParseUint_def)
  show ?thesis
  proof (cases "valid_length ?cl")
    case True
    with ok absent show ?thesis
      by (auto simp: extractDownloadDetailsFromHeaders_def Let_def split: sum.splits)
  next
    case False
    with bad absent show ?thesis
      by (auto simp: extractDownloadDetailsFromHeaders_def split: prod.splits option.splits)
  qed
qed

theorem header_extraction_outcome_witness:
  "valid_length ''5'' \<and>
   extractDownloadDetailsFromHeaders (\<lambda>_. Inr [''filename'' \<mapsto> ''a.txt''])
     [''Content-Length'' \<mapsto> [''5''],
      ''Content-Disposition'' \<mapsto> [''attachment; filename=a.txt'']] = (''a.txt'', 5, None)"
  using header_extraction_outcome [of "\<lambda>_. Inr [''filename'' \<mapsto> ''a.txt'']"
      "[''Content-Length'' \<mapsto> [''5''],
        ''Content-Disposition'' \<mapsto> [''attachment; filename=a.txt'']]"
      "[''filename'' \<mapsto> ''a.txt'']"]
  by (simp add: header_eval valid_length_def decimal_def)

text \<open>
  Claim C6 as the specification states it fails: the contents of Content-Disposition
  can make the extraction fail although the Content-Length is a valid number (here a
  disposition that lacks the semicolon before its parameter), and a Content-Length
  that is a non-negative integer, \<open>2 ^ 64\<close>, is rejected.
\<close>

theorem malformed_disposition_fails:
  "valid_length ''5'' \<and>
   extractDownloadDetailsFromHeaders (\<lambda>_. Inr (\<lambda>_. None))
     [''Content-Length'' \<mapsto> [''5''],
      ''Content-Disposition'' \<mapsto> [''attachment filename=a.txt'']] = ([], 5, Some MediaTypeError) \<and>
   extractDownloadDetailsFromHeaders (\<lambda>_. Inr (\<lambda>_. None))
     [''Content-Length'' \<mapsto> [''18446744073709551616'']] =
       ([], 18446744073709551615, Some NumRangeError)"
  by (simp add: header_eval valid_length_def decimal_def)

section \<open>Reassembly: the chunks become the file\<close>

lemma digit_char_inj:
  assumes "d < 10" and "e < 10" and "''0123456789'' ! d = ''0123456789'' ! e"
  shows "d = e"
proof -
  have "distinct ''0123456789''" by simp
  moreover have "d < length ''0123456789''" "e < length ''0123456789''"
    using assms by simp_all
  ultimately show ?thesis
    using assms(3) nth_eq_iff_index_eq by blast
qed

lemma itoa_nonempty: "itoa n \<noteq> []"
  by (subst itoa.simps) simp

lemma itoa_inj: "itoa n = itoa m \<Longrightarrow> n = m"
proof (induction n arbitrary: m rule: itoa.induct)
  case (1 n)
  show ?case
  proof (cases "n < 10")
    case n_small: True
    show ?thesis
    proof (cases "m < 10")
      case True
      with n_small "1.prems" have "''0123456789'' ! n = ''0123456789'' ! m"
        by (simp add: itoa.simps [of n] itoa.simps [of m])
      with n_small True show ?thesis
        by (rule digit_char_inj)
    next
      case False
      then have "itoa m = itoa (m div 10) @ [''0123456789'' ! (m mod 10)]"
        by (subst itoa.simps) simp
      moreover from n_small have "itoa n = [''0123456789'' ! n]"
        by (subst itoa.simps) simp
      ultimately show ?thesis
        using "1.prems" itoa_nonempty [of "m div 10"] by simp
    qed
  next
    case n_big: False
    then have n_eq: "itoa n = itoa (n div 10) @ [''0123456789'' ! (n mod 10)]"
      by (subst itoa.simps) simp
    show ?thesis
    proof (cases "m < 10")
      case True
      then have "itoa m = [''0123456789'' ! m]"
        by (subst itoa.simps) simp
      with n_eq "1.prems" itoa_nonempty [of "n div 10"] show ?thesis
        by simp
    next
      case False
      then have "itoa m = itoa (m div 10) @ [''0123456789'' ! (m mod 10)]"
        by (subst itoa.simps) simp
      with n_eq "1.prems" have pre: "itoa (n div 10) = itoa (m div 10)"
        and dig: "''0123456789'' ! (n mod 10) = ''0123456789'' ! (m mod 10)"
        by simp_all
      from "1.IH" [OF n_big pre] have "n div 10 = m div 10" .
      moreover have "n mod 10 = m mod 10"
        using dig by (intro digit_char_inj) simp_all
      ultimately show ?thesis
        by (metis div_mult_mod_eq)
    qed
  qed
qed

lemma chunk_name_inj [simp]: "chunk_name f i = chunk_name f j \<longleftrightarrow> i = j"
  by (auto simp: chunk_name_def dest: itoa_inj)

lemma chunk_name_neq [simp]: "chunk_name f i \<noteq> f" "f \<noteq> chunk_name f i"
  by (auto simp: chunk_name_def)

lemma final_name: "f @ ''.0'' = chunk_name f 0"
  by (simp add: chunk_name_def itoa.simps)

lemma merge_chunks_done: "n \<le> i \<Longrightarrow> merge_chunks w f final i n fs = Inr fs"
  by (subst merge_chunks.simps) simp

lemma merge_chunks_step:
  assumes "i < n" and "1 \<le> i"
    and "fs (chunk_name f 0) = Some t" and "fs (chunk_name f i) = Some d"
    and "\<not> open_fails w (chunk_name f i)" and "append_fault w (chunk_name f i) = None"
    and "\<not> remove_fails w (chunk_name f i)"
  shows "merge_chunks w f (chunk_name f 0) i n fs =
     merge_chunks w f (chunk_name f 0) (i + 1) n
       ((fs(chunk_name f 0 \<mapsto> t @ d))(chunk_name f i := None))"
  using assms
  by (subst merge_chunks.simps)
     (simp add: Let_def os_Open_def io_Copy_append_def os_Remove_def)

lemma merge_chunks_appends:
  assumes "1 \<le> i" and "i \<le> n" and "length cs = n"
    and "fs (chunk_name f 0) = Some t"
    and "\<forall>j. i \<le> j \<and> j < n \<longrightarrow> fs (chunk_name f j) = Some (cs ! j)"
    and "\<forall>j. i \<le> j \<and> j < n \<longrightarrow> \<not> open_fails w (chunk_name f j) \<and>
           append_fault w (chunk_name f j) = None \<and> \<not> remove_fails w (chunk_name f j)"
  shows "merge_chunks w f (chunk_name f 0) i n fs =
     Inr ((fs |` (- chunk_name f ` {i..<n}))(chunk_name f 0 \<mapsto> t @ concat (drop i cs)))"
  using assms
proof (induction "n - i" arbitrary: i fs t)
  case 0
  then have "i = n" by simp
  with 0 show ?case
    by (simp add: merge_chunks_done fun_upd_idem)
next
  case (Suc k)
  then have lt: "i < n" by simp
  let ?fs1 = "(fs(chunk_name f 0 \<mapsto> t @ cs ! i))(chunk_name f i := None)"
  have i0: "i \<noteq> 0" using Suc.prems(1) by simp
  have step: "merge_chunks w f (chunk_name f 0) i n fs =
      merge_chunks w f (chunk_name f 0) (i + 1) n ?fs1"
    using lt Suc.prems by (intro merge_chunks_step) auto
  have "merge_chunks w f (chunk_name f 0) (i + 1) n ?fs1 =
     Inr ((?fs1 |` (- chunk_name f ` {i + 1..<n}))
            (chunk_name f 0 \<mapsto> (t @ cs ! i) @ concat (drop (i + 1) cs)))"
  proof (rule Suc.hyps(1))
    show "k = n - (i + 1)" using Suc.hyps(2) by simp
    show "1 \<le> i + 1" by simp
    show "i + 1 \<le> n" using lt by simp
    show "length cs = n" by (rule Suc.prems(3))
    show "?fs1 (chunk_name f 0) = Some (t @ cs ! i)" using i0 by simp
    show "\<forall>j. i + 1 \<le> j \<and> j < n \<longrightarrow> ?fs1 (chunk_name f j) = Some (cs ! j)"
      using Suc.prems(5) by auto
    show "\<forall>j. i + 1 \<le> j \<and> j < n \<longrightarrow> \<not> open_fails w (chunk_name f j) \<and>
           append_fault w (chunk_name f j) = None \<and> \<not> remove_fails w (chunk_name f j)"
      using Suc.prems(6) by auto
  qed
  moreover have "(?fs1 |` (- chunk_name f ` {i + 1..<n}))
            (chunk_name f 0 \<mapsto> (t @ cs ! i) @ concat (drop (i + 1) cs)) =
        (fs |` (- chunk_name f ` {i..<n}))(chunk_name f 0 \<mapsto> t @ concat (drop i cs))"
  proof -
    have "drop i cs = cs ! i # drop (i + 1) cs"
      using lt Suc.prems(3) by (simp add: Cons_nth_drop_Suc)
    then have c: "(t @ cs ! i) @ concat (drop (i + 1) cs) = t @ concat (drop i cs)"
      by simp
    have "(?fs1 |` (- chunk_name f ` {i + 1..<n})) p =
          ((fs |` (- chunk_name f ` {i..<n}))(chunk_name f 0 \<mapsto> t @ cs ! i)) p" for p
    proof (cases "p = chunk_name f i")
      case True
      then show ?thesis using i0 lt by (simp add: restrict_map_def)
    next
      case False
      have "p \<in> chunk_name f ` {i + 1..<n} \<longleftrightarrow> p \<in> chunk_name f ` {i..<n}"
      proof
        assume "p \<in> chunk_name f ` {i + 1..<n}"
        then show "p \<in> chunk_name f ` {i..<n}" by auto
      next
        assume "p \<in> chunk_name f ` {i..<n}"
        then obtain j where j: "p = chunk_name f j" "i \<le> j" "j < n" by auto
        with False have "j \<noteq> i" by auto
        with j show "p \<in> chunk_name f ` {i + 1..<n}" by auto
      qed
      moreover have "chunk_name f 0 \<notin> chunk_name f ` {i..<n}"
        using i0 by auto
      ultimately show ?thesis
        using False i0 by (auto simp: restrict_map_def)
    qed
    then have "?fs1 |` (- chunk_name f ` {i + 1..<n}) =
          (fs |` (- chunk_name f ` {i..<n}))(chunk_name f 0 \<mapsto> t @ cs ! i)"
      by (rule ext)
    then show ?thesis
      by (simp only: c fun_upd_upd)
  qed
  ultimately show ?case
    using step by simp
qed

text \<open>
  Claim C7. Let the chunks of the indices below \<open>n\<close>, with \<open>n\<close> at least 1, be on
  disk with the contents \<open>cs\<close>, and let no operation on them fail for a reason outside
  the program. Then the reassembly returns; the file of the final name holds the
  contents of the chunks, concatenated in the order of their indices; none of the chunk
  files remains; and every other file is as before. Each turn of the loop, for an index
  from 1 on, appends that chunk to the base chunk and removes it before the next turn.
\<close>

theorem reassembly_concatenates:
  assumes "1 \<le> n" and "length cs = n"
    and "\<forall>i<n. fs (chunk_name f i) = Some (cs ! i)"
    and "\<forall>i<n. \<not> open_fails w (chunk_name f i) \<and> append_fault w (chunk_name f i) = None \<and>
           \<not> remove_fails w (chunk_name f i)"
    and "\<not> rename_fails w (chunk_name f 0) f"
  shows "\<exists>fs'. reassemble w f n fs = Inr fs' \<and>
           fs' f = Some (concat cs) \<and>
           (\<forall>i<n. fs' (chunk_name f i) = None) \<and>
           (\<forall>p. p \<noteq> f \<and> p \<notin> chunk_name f ` {..<n} \<longrightarrow> fs' p = fs p) \<and>
           (\<forall>i t d fs0. 1 \<le> i \<and> i < n \<and> fs0 (chunk_name f 0) = Some t \<and>
               fs0 (chunk_name f i) = Some d \<longrightarrow>
               merge_chunks w f (f @ ''.0'') i n fs0 =
               merge_chunks w f (f @ ''.0'') (i + 1) n
                 ((fs0(f @ ''.0'' \<mapsto> t @ d))(chunk_name f i := None)))"
proof -
  let ?base = "chunk_name f 0"
  let ?merged = "(fs |` (- chunk_name f ` {1..<n}))(?base \<mapsto> cs ! 0 @ concat (drop 1 cs))"
  let ?fs' = "(?merged(?base := None))(f \<mapsto> concat cs)"
  from assms(1,2) have ne: "cs \<noteq> []"
    by auto
  then have whole: "cs ! 0 @ concat (drop (Suc 0) cs) = concat cs"
    by (cases cs) simp_all
  from assms(1,3) have base: "fs ?base = Some (cs ! 0)"
    by simp
  from assms(1,4) have "\<not> open_fails w ?base"
    by simp
  with base have opened: "os_Open w fs ?base = Some (cs ! 0)"
    by (simp add: os_Open_def)
  have merged: "merge_chunks w f ?base 1 n fs = Inr ?merged"
    using assms by (intro merge_chunks_appends) auto
  have renamed: "os_Rename w ?base f ?merged = ?fs'"
    using assms(5) by (simp add: os_Rename_def whole)
  have result: "reassemble w f n fs = Inr ?fs'"
    unfolding reassemble_def final_name Let_def
    by (simp only: opened merged option.case sum.case renamed)
  have gone: "\<forall>i<n. ?fs' (chunk_name f i) = None"
  proof (intro allI impI)
    fix i assume "i < n"
    then show "?fs' (chunk_name f i) = None"
      by (cases "i = 0") (auto simp: restrict_map_def)
  qed
  have frame: "\<forall>p. p \<noteq> f \<and> p \<notin> chunk_name f ` {..<n} \<longrightarrow> ?fs' p = fs p"
  proof (intro allI impI)
    fix p assume p: "p \<noteq> f \<and> p \<notin> chunk_name f ` {..<n}"
    then have "p \<noteq> ?base" using assms(1) by auto
    moreover from p have "p \<notin> chunk_name f ` {1..<n}" by auto
    ultimately show "?fs' p = fs p"
      using p by (simp add: restrict_map_def)
  qed
  have steps: "\<forall>i t d fs0. 1 \<le> i \<and> i < n \<and> fs0 (chunk_name f 0) = Some t \<and>
               fs0 (chunk_name f i) = Some d \<longrightarrow>
               merge_chunks w f (f @ ''.0'') i n fs0 =
               merge_chunks w f (f @ ''.0'') (i + 1) n
                 ((fs0(f @ ''.0'' \<mapsto> t @ d))(chunk_name f i := None))"
  proof (intro allI impI, elim conjE)
    fix i t d and fs0 :: fs
    assume i: "1 \<le> i" "i < n"
      and present: "fs0 (chunk_name f 0) = Some t" "fs0 (chunk_name f i) = Some d"
    from assms(4) i(2) have "\<not> open_fails w (chunk_name f i)"
      "append_fault w (chunk_name f i) = None" "\<not> remove_fails w (chunk_name f i)"
      by simp_all
    with i present show "merge_chunks w f (f @ ''.0'') i n fs0 =
               merge_chunks w f (f @ ''.0'') (i + 1) n
                 ((fs0(f @ ''.0'' \<mapsto> t @ d))(chunk_name f i := None))"
      unfolding final_name by (intro merge_chunks_step)
  qed
  from result gone frame steps show ?thesis
    by (intro exI [of _ ?fs']) simp
qed

lemma all_less_2: "(\<forall>i<2. P i) \<longleftrightarrow> P 0 \<and> P (Suc 0)"
  by (auto simp: less_2_cases_iff)

theorem reassembly_concatenates_witness:
  "\<exists>fs'. reassemble (quiet_world [] Map.empty []) ''f.bin'' 2
            [''f.bin.0'' \<mapsto> ''ab'', ''f.bin.1'' \<mapsto> ''cd''] = Inr fs' \<and>
         fs' ''f.bin'' = Some ''abcd'' \<and> fs' ''f.bin.0'' = None \<and> fs' ''f.bin.1'' = None"
  using reassembly_concatenates [of 2 "[''ab'', ''cd'']"
      "[''f.bin.0'' \<mapsto> ''ab'', ''f.bin.1'' \<mapsto> ''cd'']" "''f.bin''" "quiet_world [] Map.empty []"]
  by (auto simp add: all_less_2 chunk_name_def itoa.simps quiet_world_def)

section \<open>The name of the output file\<close>

lemma path_Base_nonempty: "path_Base p \<noteq> []"
  by (simp add: path_Base_def Let_def)

text \<open>
  Claim C8: the file name is the Content-Disposition file name, else the last segment
  of the URL's path, else a default name when the URL has no path segment. The code does
  not reach its default. \<^verbatim>\<open>path.Base\<close> never returns the empty string (it returns \<open>.\<close>
  for the empty path), so the test \<^verbatim>\<open>fallbackFileName == ""\<close> of \<^verbatim>\<open>serialDownload\<close>
  never holds, and \<^verbatim>\<open>parallelDownload\<close> has no such test at all. For a URL without a
  path and a response without Content-Disposition both resolve the name \<open>.\<close>: the
  sequential download writes to \<open>.\<close> where that can be created and panics where it is
  the working directory, and the parallel download returns the name \<open>.\<close> and leaves
  the content in the chunk \<open>..0\<close>; no file \<open>index.html\<close> appears.
\<close>

theorem pathless_url_resolves_to_dot:
  "path_Base p \<noteq> [] \<and>
   path_Base [] = ''.'' \<and>
   serialDownload (quiet_world [] [''Content-Length'' \<mapsto> [''3'']] ''abc'') ''http://example.com''
       Map.empty = Inr ((''.'', None), [''.'' \<mapsto> ''abc'']) \<and>
   serialDownload (dot_world [''Content-Length'' \<mapsto> [''3'']] ''abc'') ''http://example.com''
       Map.empty = Inl (PanicWith FileError) \<and>
   (\<exists>fs. parallelDownload (dot_world (ranged_headers ''11'') []) ''http://example.com'' 3
       Map.empty = Some (Inr ((''.'', None), fs)) \<and>
       fs ''..0'' = Some ''bytes=0-2bytes=3-5bytes=6-8bytes=9-10'' \<and> fs ''index.html'' = None)"
proof -
  have "serialDownload (quiet_world [] [''Content-Length'' \<mapsto> [''3'']] ''abc'')
      ''http://example.com'' Map.empty = Inr ((''.'', None), [''.'' \<mapsto> ''abc''])"
    by (simp add: serialDownload_def world_eval dataWriter_def Write_def Let_def)
  moreover have "serialDownload (dot_world [''Content-Length'' \<mapsto> [''3'']] ''abc'')
      ''http://example.com'' Map.empty = Inl (PanicWith FileError)"
    by (simp add: serialDownload_def dot_world_def world_eval dataWriter_def Write_def Let_def)
  moreover have "\<exists>fs. parallelDownload (dot_world (ranged_headers ''11'') [])
       ''http://example.com'' 3 Map.empty = Some (Inr ((''.'', None), fs)) \<and>
       fs ''..0'' = Some ''bytes=0-2bytes=3-5bytes=6-8bytes=9-10'' \<and> fs ''index.html'' = None"
    by (simp add: dot_world_def run_eval)
  ultimately show ?thesis
    by (simp add: path_Base_nonempty path_Base_def)
qed

section \<open>The progress counter under concurrent writers\<close>

text \<open>A writer that runs alone, from its read to its write, does what \<open>Write\<close> does.\<close>

lemma lone_writer_is_Write:
  "interleave [0, 0] (readBytes p, [(BeforeLoad, length d)]) =
     (readBytes (fst (Write p d)), [(Returned, length d)])"
  by (simp add: interleave_def Write_def)

text \<open>
  Claim C9: the counter is incremented under a lock or atomically, so that its final
  value is the sum of the byte counts of all calls. The code has neither. When two
  calls both read the counter before either writes it, the bytes of the first are
  lost: the counter ends at its old value plus the bytes of the second call alone,
  while one call after the other adds both. Two tasks that each write one byte leave
  the counter at 1, not at 2.
\<close>

theorem interleaved_writes_lose_bytes:
  "interleave [0, 1, 0, 1] (c, [(BeforeLoad, n1), (BeforeLoad, n2)]) =
     (c + of_nat n2, [(Returned, n1), (Returned, n2)]) \<and>
   interleave [0, 0, 1, 1] (c, [(BeforeLoad, n1), (BeforeLoad, n2)]) =
     (c + of_nat n1 + of_nat n2, [(Returned, n1), (Returned, n2)]) \<and>
   interleave [0, 1, 0, 1] (0, [(BeforeLoad, 1), (BeforeLoad, 1)]) =
     (1, [(Returned, 1), (Returned, 1)]) \<and>
   interleave [0, 0, 1, 1] (0, [(BeforeLoad, 1), (BeforeLoad, 1)]) =
     (2, [(Returned, 1), (Returned, 1)])"
  by (simp add: interleave_def)

section \<open>An error return leaves the files alone\<close>

text \<open>
  Claim C10: whenever \<^verbatim>\<open>parallelDownload\<close> returns an error, the sentinel error of the
  missing range support included, the files are exactly as they were before the call
  (and the returned name is empty): every return of an error stands before the first
  task is started.
\<close>

theorem parallelDownload_error_leaves_files:
  "parallelDownload w u n fs = Some (Inr ((name, Some err), fs')) \<Longrightarrow> fs' = fs \<and> name = []"
  by (auto simp: parallelDownload_def Let_def
      split: prod.splits option.splits sum.splits if_splits)

theorem parallelDownload_error_leaves_files_witness:
  "parallelDownload (quiet_world ''/a/f.bin'' [''Content-Length'' \<mapsto> [''11'']] []) ''u'' 3
       [''old'' \<mapsto> ''x''] =
     Some (Inr (([], Some ErrNoParallelDownload), [''old'' \<mapsto> ''x'']))"
  using parallelDownload_error_leaves_files
    [of "quiet_world ''/a/f.bin'' [''Content-Length'' \<mapsto> [''11'']] []" "''u''" 3
      "[''old'' \<mapsto> ''x'']" "[]" ErrNoParallelDownload "[''old'' \<mapsto> ''x'']"]
  by (simp add: parallelDownload_def world_eval)

end
